theory Spec2Isabelle
  imports
    Complex_Main
    "HOL-Library.Multiset"
    "HOL-Library.Char_ord"
    "HOL-Library.List_Lexorder"
begin

section \<open>Numbers\<close>

text \<open>
  The fields of a trade are finite JavaScript numbers; they are modelled as exact
  rationals (\<^typ>\<open>rat\<close>), so rounding and overflow of IEEE doubles are left out of the
  two aggregators below. What is proved of them are relations between their values, which
  do not depend on the rounding; the exact values of the worked example are decided on
  \<open>calculatePositions64\<close>, where the rounding is written out.
  \<^verbatim>\<open>calculatePositions\<close> guards its only division, so all of its values stay finite.
  \<^verbatim>\<open>getMonthlyStats\<close> divides without a guard: the quotient, and the \<^verbatim>\<open>pnl\<close> computed
  from it, can be \<^verbatim>\<open>NaN\<close> or an infinity. These values are of type \<open>jsnum\<close>.
  Signed zeros are not distinguished.
\<close>

datatype jsnum = Fin rat | NaN | PosInf | NegInf

text \<open>\<^verbatim>\<open>a / b\<close> on finite operands.\<close>

definition jsdiv :: "rat \<Rightarrow> rat \<Rightarrow> jsnum" where
  "jsdiv a b =
     (if b \<noteq> 0 then Fin (a / b)
      else if a = 0 then NaN
      else if 0 < a then PosInf else NegInf)"

text \<open>Truthiness of a number, as \<^verbatim>\<open>||\<close> tests it: \<^verbatim>\<open>0\<close> and \<^verbatim>\<open>NaN\<close> are falsy.\<close>

fun truthy :: "jsnum \<Rightarrow> bool" where
  "truthy (Fin r) = (r \<noteq> 0)"
| "truthy NaN = False"
| "truthy PosInf = True"
| "truthy NegInf = True"

text \<open>\<^verbatim>\<open>a - x\<close> with a finite left operand.\<close>

fun jsub :: "rat \<Rightarrow> jsnum \<Rightarrow> jsnum" where
  "jsub a (Fin b) = Fin (a - b)"
| "jsub a NaN = NaN"
| "jsub a PosInf = NegInf"
| "jsub a NegInf = PosInf"

text \<open>\<^verbatim>\<open>x * q\<close> with a finite right operand.\<close>

fun jmul :: "jsnum \<Rightarrow> rat \<Rightarrow> jsnum" where
  "jmul (Fin a) q = Fin (a * q)"
| "jmul NaN q = NaN"
| "jmul PosInf q = (if q = 0 then NaN else if 0 < q then PosInf else NegInf)"
| "jmul NegInf q = (if q = 0 then NaN else if 0 < q then NegInf else PosInf)"

text \<open>\<^verbatim>\<open>x + y\<close>.\<close>

fun jadd :: "jsnum \<Rightarrow> jsnum \<Rightarrow> jsnum" where
  "jadd (Fin a) (Fin b) = Fin (a + b)"
| "jadd NaN y = NaN"
| "jadd x NaN = NaN"
| "jadd PosInf NegInf = NaN"
| "jadd NegInf PosInf = NaN"
| "jadd PosInf y = PosInf"
| "jadd NegInf y = NegInf"
| "jadd x PosInf = PosInf"
| "jadd x NegInf = NegInf"

section \<open>Data model\<close>

text \<open>
  \<^verbatim>\<open>Trade\<close>: the interface of \<^verbatim>\<open>types\<close>, with the fields the dashboard reads from
  round-trip records (\<^verbatim>\<open>buyPrice\<close>, \<^verbatim>\<open>sellPrice\<close>, \<^verbatim>\<open>realizedPnl\<close>, read there with a default,
  hence optional) and the third value \<^verbatim>\<open>'roundtrip'\<close> of \<^verbatim>\<open>type\<close> that it tests.
  \<^verbatim>\<open>id\<close> is named \<open>trade_id\<close>.
\<close>

datatype TradeType = Buy | Sell | Roundtrip

record Trade =
  trade_id :: string
  date :: string
  stockName :: string
  stockCode :: string
  type :: TradeType
  quantity :: rat
  price :: rat
  buyPrice :: "rat option"
  sellPrice :: "rat option"
  realizedPnl :: "rat option"
  memo :: string
  images :: "string list"

text \<open>
  \<^verbatim>\<open>StockPosition\<close>; its \<^verbatim>\<open>stockName\<close> and \<^verbatim>\<open>stockCode\<close> carry the prefix \<open>pos_\<close>.
\<close>

record StockPosition =
  pos_stockName :: string
  pos_stockCode :: string
  buyQuantity :: rat
  sellQuantity :: rat
  holdingQuantity :: rat
  avgBuyPrice :: rat
  totalBuyCost :: rat
  totalSellRevenue :: rat
  realizedPnL :: rat

text \<open>The value type of \<^verbatim>\<open>monthMap\<close> and the element type of the result of
  \<^verbatim>\<open>getMonthlyStats\<close> (\<^verbatim>\<open>count\<close> is named \<open>countN\<close>).\<close>

record MonthAcc =
  buyAmount :: rat
  sellAmount :: rat
  pnl :: jsnum
  countN :: nat

record MonthlyStat = MonthAcc +
  month :: string

text \<open>The value type of \<^verbatim>\<open>avgPrices\<close>.\<close>

record AvgEntry =
  totalCost :: rat
  totalQty :: rat

section \<open>Insertion-ordered maps\<close>

text \<open>
  A JavaScript \<^verbatim>\<open>Map\<close> iterates in insertion order, and \<^verbatim>\<open>set\<close> on a present key keeps
  the key's place: an association list with \<^verbatim>\<open>get\<close> as \<^const>\<open>map_of\<close> and \<^verbatim>\<open>set\<close> as
  \<open>mapSet\<close>.
\<close>

primrec mapSet :: "'k \<Rightarrow> 'v \<Rightarrow> ('k \<times> 'v) list \<Rightarrow> ('k \<times> 'v) list" where
  "mapSet k v [] = [(k, v)]"
| "mapSet k v (p # ps) = (if fst p = k then (k, v) # ps else p # mapSet k v ps)"

section \<open>helpers.ts: calculatePositions\<close>

text \<open>\<^verbatim>\<open>trade.stockCode || trade.stockName\<close>: the empty string is falsy.\<close>

definition stockKey :: "Trade \<Rightarrow> string" where
  "stockKey trade = (if stockCode trade \<noteq> [] then stockCode trade else stockName trade)"

text \<open>The position created for a key that \<^verbatim>\<open>posMap\<close> does not hold yet.\<close>

definition newPosition :: "Trade \<Rightarrow> StockPosition" where
  "newPosition trade =
     \<lparr> pos_stockName = stockName trade, pos_stockCode = stockCode trade,
       buyQuantity = 0, sellQuantity = 0, holdingQuantity = 0, avgBuyPrice = 0,
       totalBuyCost = 0, totalSellRevenue = 0, realizedPnL = 0 \<rparr>"

text \<open>The updates of the loop body on the position of the trade's key: the buy branch,
  the \<^verbatim>\<open>else\<close> branch, then \<^verbatim>\<open>holdingQuantity\<close>.\<close>

definition applyTrade :: "StockPosition \<Rightarrow> Trade \<Rightarrow> StockPosition" where
  "applyTrade pos trade =
     (let pos1 =
        (if type trade = Buy then
           (let cost = price trade * quantity trade;
                p1 = pos\<lparr>totalBuyCost := totalBuyCost pos + cost\<rparr>;
                p2 = p1\<lparr>buyQuantity := buyQuantity p1 + quantity trade\<rparr>
            in p2\<lparr>avgBuyPrice :=
                  (if 0 < buyQuantity p2 then totalBuyCost p2 / buyQuantity p2 else 0)\<rparr>)
         else
           (let revenue = price trade * quantity trade;
                p1 = pos\<lparr>totalSellRevenue := totalSellRevenue pos + revenue\<rparr>;
                p2 = p1\<lparr>sellQuantity := sellQuantity p1 + quantity trade\<rparr>;
                costBasis = avgBuyPrice p2 * quantity trade
            in p2\<lparr>realizedPnL := realizedPnL p2 + (revenue - costBasis)\<rparr>))
      in pos1\<lparr>holdingQuantity := buyQuantity pos1 - sellQuantity pos1\<rparr>)"

text \<open>
  One iteration of \<^verbatim>\<open>for (const trade of sorted)\<close>. The source stores a fresh position
  under a new key and then mutates the stored object; here the updated position is
  stored, which appends a new key at the same place and leaves a present key where it is.
\<close>

definition posStep :: "(string \<times> StockPosition) list \<Rightarrow> Trade \<Rightarrow> (string \<times> StockPosition) list" where
  "posStep posMap trade =
     (let key = stockKey trade;
          pos = (case map_of posMap key of Some p \<Rightarrow> p | None \<Rightarrow> newPosition trade)
      in mapSet key (applyTrade pos trade) posMap)"

text \<open>
  \<^verbatim>\<open>[...trades].sort((a, b) => a.date.localeCompare(b.date))\<close>: a stable sort by date.
  On dates of the form \<^verbatim>\<open>YYYY-MM-DD\<close> \<^verbatim>\<open>localeCompare\<close> is the lexicographic order of the
  characters, which is the order of \<^typ>\<open>string\<close> here; \<^const>\<open>sort_key\<close> is stable.
\<close>

definition sortByDate :: "Trade list \<Rightarrow> Trade list" where
  "sortByDate trades = sort_key date trades"

definition calculatePositions :: "Trade list \<Rightarrow> StockPosition list" where
  "calculatePositions trades = map snd (foldl posStep [] (sortByDate trades))"

section \<open>helpers.ts: getMonthlyStats\<close>

text \<open>The first loop: \<^verbatim>\<open>avgPrices\<close> and \<^verbatim>\<open>positions\<close>, both only read by key.\<close>

definition avgStep ::
  "(string \<rightharpoonup> AvgEntry) \<times> (string \<rightharpoonup> jsnum) \<Rightarrow> Trade \<Rightarrow> (string \<rightharpoonup> AvgEntry) \<times> (string \<rightharpoonup> jsnum)" where
  "avgStep st trade =
     (let avgPrices = fst st; positions = snd st; key = stockKey trade
      in if type trade = Buy then
           (let existing = (case avgPrices key of Some e \<Rightarrow> e
                            | None \<Rightarrow> \<lparr> totalCost = 0, totalQty = 0 \<rparr>);
                e1 = existing\<lparr>totalCost := totalCost existing + price trade * quantity trade\<rparr>;
                e2 = e1\<lparr>totalQty := totalQty e1 + quantity trade\<rparr>
            in (avgPrices(key \<mapsto> e2), positions(key \<mapsto> jsdiv (totalCost e2) (totalQty e2))))
         else (avgPrices, positions))"

text \<open>\<^verbatim>\<open>positions.get(key) || trade.price\<close>.\<close>

definition avgPriceOf :: "(string \<rightharpoonup> jsnum) \<Rightarrow> Trade \<Rightarrow> jsnum" where
  "avgPriceOf positions trade =
     (case positions (stockKey trade) of
        Some v \<Rightarrow> if truthy v then v else Fin (price trade)
      | None \<Rightarrow> Fin (price trade))"

text \<open>\<^verbatim>\<open>(trade.price - avgPrice) * trade.quantity\<close>, the summand of \<^verbatim>\<open>existing.pnl\<close>.\<close>

definition pnlContribution :: "(string \<rightharpoonup> jsnum) \<Rightarrow> Trade \<Rightarrow> jsnum" where
  "pnlContribution positions trade =
     jmul (jsub (price trade) (avgPriceOf positions trade)) (quantity trade)"

definition emptyAcc :: MonthAcc where
  "emptyAcc = \<lparr> buyAmount = 0, sellAmount = 0, pnl = Fin 0, countN = 0 \<rparr>"

text \<open>The updates of the second loop's body on the bucket of the trade's month.\<close>

definition accTrade :: "(string \<rightharpoonup> jsnum) \<Rightarrow> MonthAcc \<Rightarrow> Trade \<Rightarrow> MonthAcc" where
  "accTrade positions existing trade =
     (let amount = price trade * quantity trade;
          e1 = (if type trade = Buy then existing\<lparr>buyAmount := buyAmount existing + amount\<rparr>
                else (let e = existing\<lparr>sellAmount := sellAmount existing + amount\<rparr>
                      in e\<lparr>pnl := jadd (pnl e) (pnlContribution positions trade)\<rparr>))
      in e1\<lparr>countN := countN e1 + 1\<rparr>)"

text \<open>\<^verbatim>\<open>trade.date.slice(0, 7)\<close>.\<close>

definition monthOf :: "Trade \<Rightarrow> string" where
  "monthOf trade = take 7 (date trade)"

definition monthStep ::
  "(string \<rightharpoonup> jsnum) \<Rightarrow> (string \<times> MonthAcc) list \<Rightarrow> Trade \<Rightarrow> (string \<times> MonthAcc) list" where
  "monthStep positions monthMap trade =
     (let m = monthOf trade;
          existing = (case map_of monthMap m of Some e \<Rightarrow> e | None \<Rightarrow> emptyAcc)
      in mapSet m (accTrade positions existing trade) monthMap)"

text \<open>\<^verbatim>\<open>xs.slice(-n)\<close>: the last \<open>n\<close> elements, all of them when there are fewer.\<close>

definition sliceLast :: "nat \<Rightarrow> 'a list \<Rightarrow> 'a list" where
  "sliceLast n xs = drop (length xs - n) xs"

definition toStat :: "string \<times> MonthAcc \<Rightarrow> MonthlyStat" where
  "toStat e =
     \<lparr> buyAmount = buyAmount (snd e), sellAmount = sellAmount (snd e), pnl = pnl (snd e),
       countN = countN (snd e), month = fst e \<rparr>"

definition avgPositions :: "Trade list \<Rightarrow> (string \<rightharpoonup> jsnum)" where
  "avgPositions sortedTrades = snd (foldl avgStep (Map.empty, Map.empty) sortedTrades)"

definition getMonthlyStats :: "Trade list \<Rightarrow> MonthlyStat list" where
  "getMonthlyStats trades =
     (let sortedTrades = sortByDate trades;
          positions = avgPositions sortedTrades;
          monthMap = foldl (monthStep positions) [] sortedTrades
      in sliceLast 12 (sort_key month (map toStat monthMap)))"

section \<open>Dashboard: round-trip metrics\<close>

record TradeComputed =
  tc_buyAmount :: rat
  tc_sellAmount :: rat
  tc_pnl :: rat
  tc_returnPct :: rat

text \<open>\<^verbatim>\<open>x ?? 0\<close> and, on finite numbers, \<^verbatim>\<open>Number(x || 0)\<close>.\<close>

definition orZero :: "rat option \<Rightarrow> rat" where
  "orZero x = (case x of Some v \<Rightarrow> v | None \<Rightarrow> 0)"

definition getTradeComputed :: "Trade \<Rightarrow> TradeComputed" where
  "getTradeComputed trade =
     (let qty = (if quantity trade \<noteq> 0 then quantity trade else 0);
          amounts =
            (if type trade = Roundtrip then
               (let bp = orZero (buyPrice trade); sp = orZero (sellPrice trade)
                in (bp * qty, sp * qty))
             else if type trade = Buy then (price trade * qty, 0)
             else if type trade = Sell then (0, price trade * qty)
             else (0, 0));
          buyAmt = fst amounts;
          sellAmt = snd amounts;
          pnlV = orZero (realizedPnl trade);
          returnPct = (if 0 < buyAmt then (pnlV / buyAmt) * 100 else 0)
      in \<lparr> tc_buyAmount = buyAmt, tc_sellAmount = sellAmt, tc_pnl = pnlV,
           tc_returnPct = returnPct \<rparr>)"

record DaySummary =
  totalBuy :: rat
  totalSell :: rat
  totalPnl :: rat
  avgReturn :: rat

text \<open>The state of the loop of \<^verbatim>\<open>getDaySummary\<close>: \<^verbatim>\<open>totalBuy\<close>, \<^verbatim>\<open>totalSell\<close>,
  \<^verbatim>\<open>totalPnl\<close> and \<^verbatim>\<open>returns\<close>.\<close>

definition dayStep :: "rat \<times> rat \<times> rat \<times> rat list \<Rightarrow> Trade \<Rightarrow> rat \<times> rat \<times> rat \<times> rat list" where
  "dayStep st t =
     (case st of (tBuy, tSell, tPnl, returns) \<Rightarrow>
        (let c = getTradeComputed t
         in (tBuy + tc_buyAmount c, tSell + tc_sellAmount c, tPnl + tc_pnl c,
             if 0 < tc_buyAmount c then returns @ [tc_returnPct c] else returns)))"

text \<open>\<^verbatim>\<open>xs.length ? xs.reduce((a, b) => a + b, 0) / xs.length : 0\<close>.\<close>

definition meanOrZero :: "rat list \<Rightarrow> rat" where
  "meanOrZero xs = (if length xs \<noteq> 0 then foldl (+) 0 xs / of_nat (length xs) else 0)"

definition getDaySummary :: "Trade list \<Rightarrow> DaySummary" where
  "getDaySummary trades =
     (case foldl dayStep (0, 0, 0, []) trades of (tBuy, tSell, tPnl, returns) \<Rightarrow>
        \<lparr> totalBuy = tBuy, totalSell = tSell, totalPnl = tPnl,
          avgReturn = meanOrZero returns \<rparr>)"

text \<open>
  \<^verbatim>\<open>avgReturnPct\<close> of the dashboard; \<^verbatim>\<open>null\<close> is \<^const>\<open>None\<close>, and every value that is
  not \<^verbatim>\<open>null\<close> is finite.
\<close>

definition investedReturn :: "Trade \<Rightarrow> rat option" where
  "investedReturn t =
     (let invested = orZero (buyPrice t) * quantity t;
          pnlV = orZero (realizedPnl t)
      in if 0 < invested then Some ((pnlV / invested) * 100) else None)"

definition avgReturnPct :: "Trade list \<Rightarrow> rat" where
  "avgReturnPct list =
     (let rets = map the (filter (\<lambda>v. v \<noteq> None) (map investedReturn list))
      in if length rets = 0 then 0 else foldl (+) 0 rets / of_nat (length rets))"

section \<open>binary64 arithmetic\<close>

text \<open>
  A JavaScript number is an IEEE 754 binary64 value: the result of \<^verbatim>\<open>+\<close>, \<^verbatim>\<open>-\<close>, \<^verbatim>\<open>*\<close> and
  \<^verbatim>\<open>/\<close> is the exact result rounded to the nearest number with 53 significant bits, ties
  to the even significand. \<open>fl\<close> is this rounding on the rationals. The exponent is not
  bounded here, so overflow to an infinity and the subnormal numbers are left out.
\<close>

text \<open>For \<open>1 \<le> x\<close>, the \<open>e\<close> with \<open>2 ^ e \<le> x < 2 ^ (e + 1)\<close>.\<close>

function halvings :: "rat \<Rightarrow> nat" where
  "halvings x = (if x < 2 then 0 else Suc (halvings (x / 2)))"
  by pat_completeness auto
termination
proof (relation "measure (\<lambda>x. nat \<lceil>x\<rceil>)")
  show "wf (measure (\<lambda>x. nat \<lceil>x\<rceil>))" by simp
next
  fix x :: rat
  assume "\<not> x < 2"
  then have x: "2 \<le> x" by simp
  then have "x / 2 \<le> x - 1" by simp
  then have "\<lceil>x / 2\<rceil> \<le> \<lceil>x - 1\<rceil>" by (rule ceiling_mono)
  then have "\<lceil>x / 2\<rceil> < \<lceil>x\<rceil>" by simp
  moreover have "0 < \<lceil>x\<rceil>" using x by (simp add: less_ceiling_iff)
  ultimately show "(x / 2, x) \<in> measure (\<lambda>x. nat \<lceil>x\<rceil>)" by simp
qed

text \<open>For \<open>0 < x < 1\<close>, the \<open>e\<close> with \<open>2 ^ (- e) \<le> x < 2 ^ (1 - e)\<close>.\<close>

function doublings :: "rat \<Rightarrow> nat" where
  "doublings x = (if x \<le> 0 \<or> 1 \<le> x then 0 else Suc (doublings (2 * x)))"
  by pat_completeness auto
termination
proof (relation "measure (\<lambda>x. nat \<lceil>1 / x\<rceil>)")
  show "wf (measure (\<lambda>x. nat \<lceil>1 / x\<rceil>))" by simp
next
  fix x :: rat
  assume "\<not> (x \<le> 0 \<or> 1 \<le> x)"
  then have x: "0 < x" "x < 1" by simp_all
  define y where "y = 1 / x"
  have y: "1 < y" using x by (simp add: y_def)
  have e: "1 / (2 * x) = y / 2" by (simp add: y_def)
  have "\<lceil>y / 2\<rceil> < \<lceil>y\<rceil>"
  proof (cases "2 \<le> y")
    case True
    then have "y / 2 \<le> y - 1" by simp
    then have "\<lceil>y / 2\<rceil> \<le> \<lceil>y - 1\<rceil>" by (rule ceiling_mono)
    then show ?thesis by simp
  next
    case False
    then have "y / 2 \<le> 1" by simp
    then have "\<lceil>y / 2\<rceil> \<le> 1" by (simp only: ceiling_le_iff of_int_1)
    moreover have "1 < \<lceil>y\<rceil>" using y by (simp only: less_ceiling_iff of_int_1)
    ultimately show ?thesis by linarith
  qed
  moreover have "0 < \<lceil>y\<rceil>" using y by (simp add: less_ceiling_iff)
  ultimately have "nat \<lceil>1 / (2 * x)\<rceil> < nat \<lceil>1 / x\<rceil>"
    unfolding e unfolding y_def by linarith
  then show "(2 * x, x) \<in> measure (\<lambda>x. nat \<lceil>1 / x\<rceil>)" by simp
qed

declare halvings.simps [simp del] doublings.simps [simp del]

text \<open>The binary exponent of a number other than \<open>0\<close>, and the powers of two.\<close>

definition exponent :: "rat \<Rightarrow> int" where
  "exponent x = (if 1 \<le> \<bar>x\<bar> then int (halvings \<bar>x\<bar>) else - int (doublings \<bar>x\<bar>))"

definition pow2 :: "int \<Rightarrow> rat" where
  "pow2 e = (if 0 \<le> e then 2 ^ nat e else 1 / 2 ^ nat (- e))"

text \<open>The nearest integer, a tie going to the even one.\<close>

definition roundEven :: "rat \<Rightarrow> int" where
  "roundEven r =
     (let f = \<lfloor>r\<rfloor>; d = r - of_int f
      in if d < 1 / 2 then f else if 1 / 2 < d then f + 1 else if even f then f else f + 1)"

text \<open>Rounding to 53 significant bits: the unit in the last place is \<open>2 ^ (e - 52)\<close>.\<close>

definition fl :: "rat \<Rightarrow> rat" where
  "fl x = (if x = 0 then 0
           else (let u = pow2 (exponent x - 52) in of_int (roundEven (x / u)) * u))"

text \<open>
  The loop body of \<^verbatim>\<open>calculatePositions\<close> with the rounding of every arithmetic result
  written out: \<open>applyTrade\<close> with \<open>fl\<close> around each \<^verbatim>\<open>*\<close>, \<^verbatim>\<open>+\<close>, \<^verbatim>\<open>/\<close> and \<^verbatim>\<open>-\<close>, in the
  order of the source (\<^verbatim>\<open>pos.realizedPnL += revenue - costBasis\<close> rounds the difference,
  then the sum). The fields of the trades are taken to be binary64 numbers.
\<close>

definition applyTrade64 :: "StockPosition \<Rightarrow> Trade \<Rightarrow> StockPosition" where
  "applyTrade64 pos trade =
     (let pos1 =
        (if type trade = Buy then
           (let cost = fl (price trade * quantity trade);
                p1 = pos\<lparr>totalBuyCost := fl (totalBuyCost pos + cost)\<rparr>;
                p2 = p1\<lparr>buyQuantity := fl (buyQuantity p1 + quantity trade)\<rparr>
            in p2\<lparr>avgBuyPrice :=
                  (if 0 < buyQuantity p2 then fl (totalBuyCost p2 / buyQuantity p2) else 0)\<rparr>)
         else
           (let revenue = fl (price trade * quantity trade);
                p1 = pos\<lparr>totalSellRevenue := fl (totalSellRevenue pos + revenue)\<rparr>;
                p2 = p1\<lparr>sellQuantity := fl (sellQuantity p1 + quantity trade)\<rparr>;
                costBasis = fl (avgBuyPrice p2 * quantity trade)
            in p2\<lparr>realizedPnL := fl (realizedPnL p2 + fl (revenue - costBasis))\<rparr>))
      in pos1\<lparr>holdingQuantity := fl (buyQuantity pos1 - sellQuantity pos1)\<rparr>)"

definition posStep64 :: "(string \<times> StockPosition) list \<Rightarrow> Trade \<Rightarrow> (string \<times> StockPosition) list" where
  "posStep64 posMap trade =
     (let key = stockKey trade;
          pos = (case map_of posMap key of Some p \<Rightarrow> p | None \<Rightarrow> newPosition trade)
      in mapSet key (applyTrade64 pos trade) posMap)"

definition calculatePositions64 :: "Trade list \<Rightarrow> StockPosition list" where
  "calculatePositions64 trades = map snd (foldl posStep64 [] (sortByDate trades))"

section \<open>Notions used in the statements\<close>

text \<open>
  The key under which a returned position was stored, recomputed from the two name fields
  that \<open>newPosition\<close> copies from the first trade of the key, and the position that a
  result of \<open>calculatePositions\<close> holds for a key.
\<close>

definition posKey :: "StockPosition \<Rightarrow> string" where
  "posKey p = (if pos_stockCode p \<noteq> [] then pos_stockCode p else pos_stockName p)"

definition positionOf :: "string \<Rightarrow> StockPosition list \<Rightarrow> StockPosition option" where
  "positionOf k ps = find (\<lambda>p. posKey p = k) ps"

text \<open>
  The position of one key after a run of the loop, as a function of that key's trades
  alone: the state of the key if it is present, and the trades of the key in turn.
\<close>

fun keyFold :: "StockPosition option \<Rightarrow> Trade list \<Rightarrow> StockPosition option" where
  "keyFold po [] = po"
| "keyFold po (t # ts) =
     keyFold (Some (applyTrade (case po of Some p \<Rightarrow> p | None \<Rightarrow> newPosition t) t)) ts"

text \<open>Every stored position sits under the key its name fields give.\<close>

definition keyed :: "(string \<times> StockPosition) list \<Rightarrow> bool" where
  "keyed pm = (\<forall>e\<in>set pm. posKey (snd e) = fst e)"

text \<open>
  The aggregate return in the words of the specification: the arithmetic mean of
  \<open>returnPct\<close> over the records whose \<open>buyAmount\<close> is strictly positive, and \<open>0\<close> when
  there is none.
\<close>

definition meanReturnSpec :: "Trade list \<Rightarrow> rat" where
  "meanReturnSpec ts =
     (let rs = map (\<lambda>t. tc_returnPct (getTradeComputed t))
                 (filter (\<lambda>t. 0 < tc_buyAmount (getTradeComputed t)) ts)
      in if rs = [] then 0 else sum_list rs / of_nat (length rs))"

text \<open>A record that is not a buy, relabelled as a sell; every other field is kept.\<close>

definition asSell :: "Trade \<Rightarrow> Trade" where
  "asSell t = (if type t = Buy then t else t\<lparr>type := Sell\<rparr>)"

text \<open>Example records: a trade of a stock without code, and a round-trip record.\<close>

definition mkTrade :: "string \<Rightarrow> string \<Rightarrow> TradeType \<Rightarrow> rat \<Rightarrow> rat \<Rightarrow> Trade" where
  "mkTrade d n ty q p =
     \<lparr> trade_id = [], date = d, stockName = n, stockCode = [], type = ty, quantity = q,
       price = p, buyPrice = None, sellPrice = None, realizedPnl = None, memo = [],
       images = [] \<rparr>"

definition mkRoundtrip :: "rat \<Rightarrow> rat \<Rightarrow> rat \<Rightarrow> rat \<Rightarrow> Trade" where
  "mkRoundtrip q b s r =
     \<lparr> trade_id = [], date = ''2024-05-02'', stockName = ''X'', stockCode = [],
       type = Roundtrip, quantity = q, price = 0, buyPrice = Some b, sellPrice = Some s,
       realizedPnl = Some r, memo = [], images = [] \<rparr>"

text \<open>
  The variable \<^verbatim>\<open>pos\<close> of \<open>calculatePositions\<close> when its loop, having processed \<open>pre\<close>,
  reaches the trade \<open>t\<close>, and the variable \<^verbatim>\<open>existing\<close> of the second loop of
  \<open>getMonthlyStats\<close> at the same moment.
\<close>

definition posAt :: "Trade list \<Rightarrow> Trade \<Rightarrow> StockPosition" where
  "posAt pre t =
     (case map_of (foldl posStep [] pre) (stockKey t) of Some p \<Rightarrow> p | None \<Rightarrow> newPosition t)"

definition bucketAt :: "(string \<rightharpoonup> jsnum) \<Rightarrow> Trade list \<Rightarrow> Trade \<Rightarrow> MonthAcc" where
  "bucketAt P pre t =
     (case map_of (foldl (monthStep P) [] pre) (monthOf t) of Some e \<Rightarrow> e | None \<Rightarrow> emptyAcc)"

text \<open>The buys of a stock key in a list of trades.\<close>

definition buysOf :: "string \<Rightarrow> Trade list \<Rightarrow> Trade list" where
  "buysOf k ts = filter (\<lambda>t. type t = Buy \<and> stockKey t = k) ts"

text \<open>
  The entry of a month: the bucket folded over the trades of the month, in date order,
  with the average prices taken from the whole history.
\<close>

definition monthEntry :: "Trade list \<Rightarrow> string \<Rightarrow> MonthlyStat" where
  "monthEntry ts m =
     toStat (m, foldl (accTrade (avgPositions (sortByDate ts))) emptyAcc
                  (filter (\<lambda>t. monthOf t = m) (sortByDate ts)))"

text \<open>Fifteen months of trades: a buy in the oldest month, its sell in the newest.\<close>

definition fifteenMonths :: "Trade list" where
  "fifteenMonths =
     [mkTrade ''2023-01-05'' ''X'' Buy 10 100,
      mkTrade ''2023-02-05'' ''Y'' Buy 1 1,
      mkTrade ''2023-03-05'' ''Y'' Buy 1 1,
      mkTrade ''2023-04-05'' ''Y'' Buy 1 1,
      mkTrade ''2023-05-05'' ''Y'' Buy 1 1,
      mkTrade ''2023-06-05'' ''Y'' Buy 1 1,
      mkTrade ''2023-07-05'' ''Y'' Buy 1 1,
      mkTrade ''2023-08-05'' ''Y'' Buy 1 1,
      mkTrade ''2023-09-05'' ''Y'' Buy 1 1,
      mkTrade ''2023-10-05'' ''Y'' Buy 1 1,
      mkTrade ''2023-11-05'' ''Y'' Buy 1 1,
      mkTrade ''2023-12-05'' ''Y'' Buy 1 1,
      mkTrade ''2024-01-05'' ''Y'' Buy 1 1,
      mkTrade ''2024-02-05'' ''Y'' Buy 1 1,
      mkTrade ''2024-03-05'' ''X'' Sell 10 150]"

section \<open>Maps and the position of one key\<close>

lemma map_of_mapSet: "map_of (mapSet k v al) = (map_of al)(k \<mapsto> v)"
  by (induction al) auto

lemma set_mapSet: "set (mapSet k v al) \<subseteq> insert (k, v) (set al)"
  by (induction al) auto

lemma map_of_posStep:
  "map_of (posStep pm t) k =
     (if stockKey t = k
      then Some (applyTrade (case map_of pm k of Some p \<Rightarrow> p | None \<Rightarrow> newPosition t) t)
      else map_of pm k)"
  by (auto simp: posStep_def Let_def map_of_mapSet)

lemma map_of_foldl_posStep:
  "map_of (foldl posStep pm ts) k = keyFold (map_of pm k) (filter (\<lambda>t. stockKey t = k) ts)"
  by (induction ts arbitrary: pm) (simp_all add: map_of_posStep)

lemma posKey_applyTrade [simp]: "posKey (applyTrade p t) = posKey p"
  by (simp add: posKey_def applyTrade_def Let_def)

lemma posKey_newPosition [simp]: "posKey (newPosition t) = stockKey t"
  by (simp add: posKey_def newPosition_def stockKey_def)

lemma keyed_posStep:
  assumes a: "keyed pm"
  shows "keyed (posStep pm t)"
proof -
  have "posKey (applyTrade (case map_of pm (stockKey t) of Some p \<Rightarrow> p
                            | None \<Rightarrow> newPosition t) t) = stockKey t"
  proof (cases "map_of pm (stockKey t)")
    case None
    then show ?thesis by simp
  next
    case (Some p)
    then have "(stockKey t, p) \<in> set pm" by (rule map_of_SomeD)
    with a have "posKey p = stockKey t" by (auto simp: keyed_def)
    with Some show ?thesis by simp
  qed
  with a show ?thesis
    using set_mapSet [of "stockKey t" _ pm]
    by (fastforce simp: keyed_def posStep_def Let_def)
qed

lemma keyed_foldl: "keyed pm \<Longrightarrow> keyed (foldl posStep pm ts)"
  by (induction ts arbitrary: pm) (simp_all add: keyed_posStep)

lemma find_keyed: "keyed pm \<Longrightarrow> find (\<lambda>p. posKey p = k) (map snd pm) = map_of pm k"
  by (induction pm) (auto simp: keyed_def)

lemma positionOf_calculatePositions:
  "positionOf k (calculatePositions ts) =
     keyFold None (filter (\<lambda>t. stockKey t = k) (sortByDate ts))"
proof -
  have "keyed (foldl posStep [] (sortByDate ts))"
    by (rule keyed_foldl) (simp add: keyed_def)
  then show ?thesis
    by (simp add: positionOf_def calculatePositions_def find_keyed map_of_foldl_posStep)
qed

lemma keyFold_Some: "keyFold (Some p) ts = Some (foldl applyTrade p ts)"
  by (induction ts arbitrary: p) simp_all

section \<open>A stable sort is fixed by the order within each key\<close>

lemma mset_eq_of_filters:
  assumes "\<And>d. filter (\<lambda>x. f x = d) ys = filter (\<lambda>x. f x = d) xs"
  shows "mset ys = mset xs"
proof (rule multiset_eqI)
  fix x
  have a: "filter ((=) x) (filter (\<lambda>y. f y = f x) zs) = filter ((=) x) zs" for zs
    unfolding filter_filter by (rule filter_cong) auto
  have "filter ((=) x) ys = filter ((=) x) (filter (\<lambda>y. f y = f x) ys)"
    by (rule a [symmetric])
  also have "\<dots> = filter ((=) x) (filter (\<lambda>y. f y = f x) xs)"
    by (simp only: assms [of "f x"])
  also have "\<dots> = filter ((=) x) xs" by (rule a)
  finally have "filter ((=) x) ys = filter ((=) x) xs" .
  then show "Multiset.count (mset ys) x = Multiset.count (mset xs) x"
    by (simp only: count_mset count_list_eq_length_filter)
qed

lemma sort_key_cong_filters:
  assumes "\<And>d. filter (\<lambda>x. f x = d) ys = filter (\<lambda>x. f x = d) xs"
  shows "sort_key f ys = sort_key f xs"
proof (rule properties_for_sort_key)
  show "mset (sort_key f xs) = mset ys"
    using mset_eq_of_filters [OF assms] by simp
  show "sorted (map f (sort_key f xs))" by simp
  fix k
  have "filter (\<lambda>x. f x = f k) (sort_key f xs) = filter (\<lambda>x. f x = f k) ys"
    by (simp add: sort_key_stable assms)
  then show "filter (\<lambda>x. f k = f x) (sort_key f xs) = filter (\<lambda>x. f k = f x) ys"
    by (simp add: eq_commute [of "f k"])
qed





section \<open>Order of the input and the positions\<close>

text \<open>
  C6. A rearrangement of the input that only exchanges trades with distinct dates (of
  different stock keys) keeps the relative order of the trades that share a date. Under
  that condition alone the date-sorted history is the same, so \<open>calculatePositions\<close>
  returns the same list: every field of every position is unchanged.
\<close>

theorem positions_date_order:
  assumes "\<And>d. filter (\<lambda>t. date t = d) ys = filter (\<lambda>t. date t = d) xs"
  shows "calculatePositions ys = calculatePositions xs"
  by (simp add: calculatePositions_def sortByDate_def sort_key_cong_filters [OF assms])

theorem positions_date_order_witness:
  "calculatePositions
     [mkTrade ''2024-02-01'' ''Y'' Sell 5 30, mkTrade ''2024-01-01'' ''X'' Buy 10 20] =
   calculatePositions
     [mkTrade ''2024-01-01'' ''X'' Buy 10 20, mkTrade ''2024-02-01'' ''Y'' Sell 5 30]"
  by (rule positions_date_order) (auto simp: mkTrade_def)

text \<open>
  C2, as stated, fails: three trades of one stock on one date, in two orders, give the
  realized P&L 250 and 0.
\<close>

theorem realizedPnL_order_counterexample:
  "map_option realizedPnL (positionOf ''X'' (calculatePositions
     [mkTrade ''2024-03-01'' ''X'' Buy 100 10, mkTrade ''2024-03-01'' ''X'' Sell 50 15,
      mkTrade ''2024-03-01'' ''X'' Buy 100 20])) = Some 250 \<and>
   map_option realizedPnL (positionOf ''X'' (calculatePositions
     [mkTrade ''2024-03-01'' ''X'' Buy 100 10, mkTrade ''2024-03-01'' ''X'' Buy 100 20,
      mkTrade ''2024-03-01'' ''X'' Sell 50 15])) = Some 0"
  by (simp add: positionOf_def posKey_def calculatePositions_def sortByDate_def posStep_def
      applyTrade_def newPosition_def stockKey_def mkTrade_def Let_def)

text \<open>
  C2, amended. A rearrangement of the input that keeps, among the trades of a stock, the
  relative order of those sharing a date leaves that stock's position, and so its
  \<open>realizedPnL\<close>, unchanged, whatever happens to the trades of other stocks.
\<close>

theorem realizedPnL_same_date_order:
  assumes "\<And>d. filter (\<lambda>t. date t = d \<and> stockKey t = k) ys =
                filter (\<lambda>t. date t = d \<and> stockKey t = k) xs"
  shows "map_option realizedPnL (positionOf k (calculatePositions ys)) =
           map_option realizedPnL (positionOf k (calculatePositions xs)) \<and>
         positionOf k (calculatePositions ys) = positionOf k (calculatePositions xs)"
proof -
  have "filter (\<lambda>t. date t = d) (filter (\<lambda>t. stockKey t = k) ys) =
        filter (\<lambda>t. date t = d) (filter (\<lambda>t. stockKey t = k) xs)" for d
    using assms [of d] by (simp add: conj_commute)
  then have "sort_key date (filter (\<lambda>t. stockKey t = k) ys) =
             sort_key date (filter (\<lambda>t. stockKey t = k) xs)"
    by (rule sort_key_cong_filters)
  then show ?thesis
    by (simp add: positionOf_calculatePositions sortByDate_def filter_sort)
qed

theorem realizedPnL_same_date_order_witness:
  "map_option realizedPnL (positionOf ''X'' (calculatePositions
     [mkTrade ''2024-02-01'' ''X'' Sell 5 30, mkTrade ''2024-01-01'' ''Y'' Buy 1 1,
      mkTrade ''2024-01-01'' ''X'' Buy 10 20])) =
   map_option realizedPnL (positionOf ''X'' (calculatePositions
     [mkTrade ''2024-01-01'' ''X'' Buy 10 20, mkTrade ''2024-01-01'' ''Y'' Buy 1 1,
      mkTrade ''2024-02-01'' ''X'' Sell 5 30]))"
proof -
  have "filter (\<lambda>t. date t = d \<and> stockKey t = ''X'')
          [mkTrade ''2024-02-01'' ''X'' Sell 5 30, mkTrade ''2024-01-01'' ''Y'' Buy 1 1,
           mkTrade ''2024-01-01'' ''X'' Buy 10 20] =
        filter (\<lambda>t. date t = d \<and> stockKey t = ''X'')
          [mkTrade ''2024-01-01'' ''X'' Buy 10 20, mkTrade ''2024-01-01'' ''Y'' Buy 1 1,
           mkTrade ''2024-02-01'' ''X'' Sell 5 30]" for d
    by (auto simp: mkTrade_def stockKey_def)
  from realizedPnL_same_date_order [of "''X''", OF this] show ?thesis by simp
qed

section \<open>Sells without buys\<close>





section \<open>Records that are not buys\<close>

lemma asSell_fields [simp]:
  "date (asSell t) = date t" "stockKey (asSell t) = stockKey t" "monthOf (asSell t) = monthOf t"
  "price (asSell t) = price t" "quantity (asSell t) = quantity t"
  "(type (asSell t) = Buy) = (type t = Buy)"
  by (simp_all add: asSell_def stockKey_def monthOf_def)











section \<open>The aggregate return of round-trip records\<close>

lemma foldl_plus_sum_list: "foldl (+) a xs = a + sum_list (xs :: rat list)"
  by (induction xs arbitrary: a) (simp_all add: add.assoc)

lemma meanOrZero_sum_list:
  "meanOrZero xs = (if xs = [] then 0 else sum_list xs / of_nat (length xs))"
  by (simp add: meanOrZero_def foldl_plus_sum_list)

lemma foldl_dayStep_returns:
  "snd (snd (snd (foldl dayStep (a, b, c, rs) ts))) =
     rs @ map (\<lambda>t. tc_returnPct (getTradeComputed t))
            (filter (\<lambda>t. 0 < tc_buyAmount (getTradeComputed t)) ts)"
  by (induction ts arbitrary: a b c rs) (simp_all add: dayStep_def Let_def)

lemma getDaySummary_avgReturn: "avgReturn (getDaySummary ts) = meanReturnSpec ts"
proof -
  obtain a b c rs where f: "foldl dayStep (0, 0, 0, []) ts = (a, b, c, rs)"
    by (metis prod_cases4)
  have "rs = map (\<lambda>t. tc_returnPct (getTradeComputed t))
            (filter (\<lambda>t. 0 < tc_buyAmount (getTradeComputed t)) ts)"
    using foldl_dayStep_returns [of 0 0 0 "[]" ts] by (simp add: f)
  then show ?thesis
    by (simp add: getDaySummary_def f meanOrZero_sum_list meanReturnSpec_def)
qed

lemma investedReturn_roundtrip:
  "type t = Roundtrip \<Longrightarrow>
     investedReturn t =
       (if 0 < tc_buyAmount (getTradeComputed t) then Some (tc_returnPct (getTradeComputed t))
        else None)"
  by (simp add: investedReturn_def getTradeComputed_def Let_def)

lemma rets_roundtrip:
  "\<forall>t\<in>set ts. type t = Roundtrip \<Longrightarrow>
     map the (filter (\<lambda>v. v \<noteq> None) (map investedReturn ts)) =
       map (\<lambda>t. tc_returnPct (getTradeComputed t))
         (filter (\<lambda>t. 0 < tc_buyAmount (getTradeComputed t)) ts)"
  by (induction ts) (simp_all add: investedReturn_roundtrip)

text \<open>
  C7. On round-trip records the aggregate return of \<open>getDaySummary\<close> and that of
  \<open>avgReturnPct\<close> are the arithmetic mean of \<open>returnPct\<close> over exactly the records with a
  strictly positive \<open>buyAmount\<close>; the others are left out of the mean, and the mean of
  no record is \<open>0\<close>.
\<close>

theorem roundtrip_mean_return:
  assumes "\<forall>t\<in>set ts. type t = Roundtrip"
  shows "avgReturn (getDaySummary ts) = meanReturnSpec ts \<and> avgReturnPct ts = meanReturnSpec ts"
proof
  show "avgReturn (getDaySummary ts) = meanReturnSpec ts" by (rule getDaySummary_avgReturn)
  show "avgReturnPct ts = meanReturnSpec ts"
    unfolding avgReturnPct_def Let_def rets_roundtrip [OF assms]
    by (simp add: foldl_plus_sum_list meanReturnSpec_def)
qed

text \<open>Returns of 10\%, none (no investment) and -5\%: the mean is 2.5, not 5/3; and the
  record without investment alone gives 0.\<close>

theorem roundtrip_mean_return_witness:
  "avgReturn (getDaySummary
     [mkRoundtrip 10 100 110 100, mkRoundtrip 10 0 100 1000, mkRoundtrip 5 200 190 (- 50)]) = 5 / 2 \<and>
   avgReturnPct
     [mkRoundtrip 10 100 110 100, mkRoundtrip 10 0 100 1000, mkRoundtrip 5 200 190 (- 50)] = 5 / 2 \<and>
   avgReturn (getDaySummary [mkRoundtrip 10 0 100 1000]) = 0 \<and>
   avgReturnPct [mkRoundtrip 10 0 100 1000] = 0"
proof -
  have m1: "meanReturnSpec
     [mkRoundtrip 10 100 110 100, mkRoundtrip 10 0 100 1000, mkRoundtrip 5 200 190 (- 50)] = 5 / 2"
    by (simp add: meanReturnSpec_def getTradeComputed_def orZero_def mkRoundtrip_def)
  have m2: "meanReturnSpec [mkRoundtrip 10 0 100 1000] = 0"
    by (simp add: meanReturnSpec_def getTradeComputed_def orZero_def mkRoundtrip_def)
  show ?thesis
    using roundtrip_mean_return [of "[mkRoundtrip 10 100 110 100, mkRoundtrip 10 0 100 1000,
        mkRoundtrip 5 200 190 (- 50)]"]
      roundtrip_mean_return [of "[mkRoundtrip 10 0 100 1000]"] m1 m2
    by (simp add: mkRoundtrip_def)
qed

section \<open>The worked example\<close>

lemma fl_0 [simp]: "fl 0 = 0"
  by (simp add: fl_def)

text \<open>The rounding at work: \<^verbatim>\<open>0.1 + 0.2\<close> is \<^verbatim>\<open>0.30000000000000004\<close>, and \<open>2 ^ 53 + 1\<close> is not
  a binary64 number.\<close>

lemma fl_examples:
  "fl (fl (1 / 10) + fl (2 / 10)) = 1351079888211149 / 2 ^ 52"
  "fl (3 / 10) = 5404319552844595 / 2 ^ 54"
  "fl 9007199254740993 = 9007199254740992"
  "fl (- (1 / 3)) = - fl (1 / 3)"
  by code_simp+

lemma fl_values:
  "fl 1000 = 1000" "fl 100 = 100" "fl 10 = 10" "fl 600 = 600" "fl 1600 = 1600" "fl 150 = 150"
  "fl 1200 = 1200" "fl 80 = 80" "fl 70 = 70"
  by code_simp+

lemma fl_worked:
  "fl (32 / 3) * 562949953421312 = 6004799503160661"
  "fl (fl (1200 - fl (fl (32 / 3) * 80))) * 4398046511104 = 1524656123849387"
  by code_simp+

text \<open>
  C4, as stated, fails: on buy 100 at 10, buy 50 at 12, sell 80 at 15 the quotient
  \<^verbatim>\<open>1600 / 150\<close> is rounded, so \<open>avgBuyPrice\<close> is \<open>6004799503160661 / 2 ^ 49\<close>, printed
  \<^verbatim>\<open>10.666666666666666\<close>, and \<open>realizedPnL\<close> is \<open>3049312247698774 / 2 ^ 43\<close>, printed
  \<^verbatim>\<open>346.66666666666674\<close>: neither is \<open>32/3\<close> or \<open>1040/3\<close>.
\<close>

theorem worked_example_counterexample:
  "map avgBuyPrice (calculatePositions64
     [mkTrade ''2024-01-10'' ''X'' Buy 100 10, mkTrade ''2024-02-03'' ''X'' Buy 50 12,
      mkTrade ''2024-02-20'' ''X'' Sell 80 15]) = [6004799503160661 / 2 ^ 49] \<and>
   map realizedPnL (calculatePositions64
     [mkTrade ''2024-01-10'' ''X'' Buy 100 10, mkTrade ''2024-02-03'' ''X'' Buy 50 12,
      mkTrade ''2024-02-20'' ''X'' Sell 80 15]) = [3049312247698774 / 2 ^ 43] \<and>
   (6004799503160661 / 2 ^ 49 :: rat) \<noteq> 32 / 3 \<and>
   (3049312247698774 / 2 ^ 43 :: rat) \<noteq> 1040 / 3"
  by (simp add: calculatePositions64_def sortByDate_def posStep64_def applyTrade64_def
      newPosition_def Let_def stockKey_def mkTrade_def fl_values fl_worked)

text \<open>
  C4, amended. Three trades of one stock in chronological order, buy 100 at 10, buy 50 at
  12, sell 80 at 15: \<open>calculatePositions\<close> returns one position, with
  \<open>holdingQuantity = 70\<close>, with \<open>avgBuyPrice\<close> the binary64 number
  \<open>6004799503160661 / 2 ^ 49\<close>, less than \<open>2 ^ -50\<close> from \<open>32/3\<close>, and with \<open>realizedPnL\<close>
  the binary64 number \<open>3049312247698774 / 2 ^ 43\<close>, less than \<open>2 ^ -43\<close> from \<open>1040/3\<close>.
\<close>

theorem worked_example_binary64:
  assumes k: "stockKey b1 = stockKey b2" "stockKey b2 = stockKey s"
    and b1: "type b1 = Buy" "quantity b1 = 100" "price b1 = 10"
    and b2: "type b2 = Buy" "quantity b2 = 50" "price b2 = 12"
    and s: "type s = Sell" "quantity s = 80" "price s = 15"
    and d: "date b1 \<le> date b2" "date b2 \<le> date s"
  shows "\<exists>p. calculatePositions64 [b1, b2, s] = [p] \<and>
             avgBuyPrice p = 6004799503160661 / 2 ^ 49 \<and>
             realizedPnL p = 3049312247698774 / 2 ^ 43 \<and>
             holdingQuantity p = 70 \<and>
             \<bar>avgBuyPrice p - 32 / 3\<bar> < 1 / 2 ^ 50 \<and>
             \<bar>realizedPnL p - 1040 / 3\<bar> < 1 / 2 ^ 43 \<and>
             avgBuyPrice p \<noteq> 32 / 3 \<and> realizedPnL p \<noteq> 1040 / 3"
proof -
  have "sorted (map date [b1, b2, s])" using d by auto
  then have srt: "sortByDate [b1, b2, s] = [b1, b2, s]"
    unfolding sortByDate_def by (rule sort_key_id_if_sorted)
  have "\<exists>p. calculatePositions64 [b1, b2, s] = [p] \<and>
             avgBuyPrice p = 6004799503160661 / 2 ^ 49 \<and>
             realizedPnL p = 3049312247698774 / 2 ^ 43 \<and>
             holdingQuantity p = 70"
    unfolding calculatePositions64_def srt
    using k b1 b2 s
    by (simp add: posStep64_def applyTrade64_def newPosition_def Let_def map_of_mapSet fl_values
        fl_worked)
  then obtain p where p: "calculatePositions64 [b1, b2, s] = [p]"
      "avgBuyPrice p = 6004799503160661 / 2 ^ 49" "realizedPnL p = 3049312247698774 / 2 ^ 43"
      "holdingQuantity p = 70"
    by blast
  have "\<bar>avgBuyPrice p - 32 / 3\<bar> < 1 / 2 ^ 50" unfolding p by simp
  moreover have "\<bar>realizedPnL p - 1040 / 3\<bar> < 1 / 2 ^ 43" unfolding p by simp
  moreover have "avgBuyPrice p \<noteq> 32 / 3" unfolding p by simp
  moreover have "realizedPnL p \<noteq> 1040 / 3" unfolding p by simp
  ultimately show ?thesis using p by blast
qed

theorem worked_example_binary64_witness:
  "\<exists>p. calculatePositions64
     [mkTrade ''2024-01-10'' ''X'' Buy 100 10, mkTrade ''2024-02-03'' ''X'' Buy 50 12,
      mkTrade ''2024-02-20'' ''X'' Sell 80 15] = [p] \<and>
     avgBuyPrice p = 6004799503160661 / 2 ^ 49 \<and>
     realizedPnL p = 3049312247698774 / 2 ^ 43 \<and>
     holdingQuantity p = 70"
proof -
  have "\<exists>p. calculatePositions64
     [mkTrade ''2024-01-10'' ''X'' Buy 100 10, mkTrade ''2024-02-03'' ''X'' Buy 50 12,
      mkTrade ''2024-02-20'' ''X'' Sell 80 15] = [p] \<and>
     avgBuyPrice p = 6004799503160661 / 2 ^ 49 \<and>
     realizedPnL p = 3049312247698774 / 2 ^ 43 \<and>
     holdingQuantity p = 70 \<and>
     \<bar>avgBuyPrice p - 32 / 3\<bar> < 1 / 2 ^ 50 \<and>
     \<bar>realizedPnL p - 1040 / 3\<bar> < 1 / 2 ^ 43 \<and>
     avgBuyPrice p \<noteq> 32 / 3 \<and> realizedPnL p \<noteq> 1040 / 3"
    by (rule worked_example_binary64) (simp_all add: stockKey_def mkTrade_def)
  then show ?thesis by blast
qed

section \<open>The return of one round-trip record\<close>

text \<open>
  C8. For a round-trip record \<open>getTradeComputed\<close> takes \<open>buyAmount = buyPrice * quantity\<close>
  and yields \<open>returnPct = (realizedPnl / buyAmount) * 100\<close> when \<open>buyAmount\<close> is strictly
  positive and \<open>0\<close> otherwise: the division is guarded, and the result is a finite number.
\<close>

theorem returnPct_guarded:
  assumes "type t = Roundtrip"
  shows "tc_buyAmount (getTradeComputed t) = orZero (buyPrice t) * quantity t \<and>
         tc_returnPct (getTradeComputed t) =
           (if 0 < orZero (buyPrice t) * quantity t
            then (orZero (realizedPnl t) / (orZero (buyPrice t) * quantity t)) * 100
            else 0)"
  using assms by (simp add: getTradeComputed_def Let_def)

text \<open>The record with quantity 10, buy price 0, sell price 100 and realized P&L 1000
  reports exactly 0.\<close>

theorem returnPct_guarded_witness:
  "tc_returnPct (getTradeComputed
      \<lparr> trade_id = ''r1'', date = ''2024-05-02'', stockName = ''X'', stockCode = [],
        type = Roundtrip, quantity = 10, price = 0, buyPrice = Some 0, sellPrice = Some 100,
        realizedPnl = Some 1000, memo = [], images = [] \<rparr>) = 0"
  using returnPct_guarded [of "\<lparr> trade_id = ''r1'', date = ''2024-05-02'', stockName = ''X'',
        stockCode = [], type = Roundtrip, quantity = 10, price = 0, buyPrice = Some 0,
        sellPrice = Some 100, realizedPnl = Some 1000, memo = [], images = [] \<rparr>"]
  by (simp add: orZero_def)

section \<open>The average prices of the first loop\<close>

lemma buysOf_snoc:
  "buysOf k (xs @ [x]) = (if type x = Buy \<and> stockKey x = k then buysOf k xs @ [x] else buysOf k xs)"
  by (simp add: buysOf_def)

lemma foldl_avgStep:
  "fst (foldl avgStep (Map.empty, Map.empty) ts) k =
     (if buysOf k ts = [] then None
      else Some \<lparr> totalCost = (\<Sum>b\<leftarrow>buysOf k ts. price b * quantity b),
                  totalQty = (\<Sum>b\<leftarrow>buysOf k ts. quantity b) \<rparr>) \<and>
   snd (foldl avgStep (Map.empty, Map.empty) ts) k =
     (if buysOf k ts = [] then None
      else Some (jsdiv (\<Sum>b\<leftarrow>buysOf k ts. price b * quantity b) (\<Sum>b\<leftarrow>buysOf k ts. quantity b)))"
proof (induction ts rule: rev_induct)
  case Nil
  then show ?case by (simp add: buysOf_def)
next
  case (snoc x xs)
  then show ?case
    by (simp add: avgStep_def Let_def buysOf_snoc)
qed

lemma avgPositions_key:
  "avgPositions ts k =
     (if buysOf k ts = [] then None
      else Some (jsdiv (\<Sum>b\<leftarrow>buysOf k ts. price b * quantity b) (\<Sum>b\<leftarrow>buysOf k ts. quantity b)))"
  by (simp add: avgPositions_def foldl_avgStep)

lemma jadd_zero [simp]: "jadd x (Fin 0) = x"
  by (cases x) simp_all

lemma pnlContribution_no_buys:
  "buysOf (stockKey t) ts = [] \<Longrightarrow> pnlContribution (avgPositions ts) t = Fin 0"
  by (simp add: pnlContribution_def avgPriceOf_def avgPositions_key)

lemma map_of_monthStep_same:
  "map_of (monthStep P mm t) (monthOf t) =
     Some (accTrade P (case map_of mm (monthOf t) of Some e \<Rightarrow> e | None \<Rightarrow> emptyAcc) t)"
  by (simp add: monthStep_def Let_def map_of_mapSet)

lemma applyTrade_buy_fields:
  "totalBuyCost (applyTrade q x) =
     (if type x = Buy then totalBuyCost q + price x * quantity x else totalBuyCost q)"
  "buyQuantity (applyTrade q x) =
     (if type x = Buy then buyQuantity q + quantity x else buyQuantity q)"
  "avgBuyPrice (applyTrade q x) =
     (if type x = Buy
      then (if 0 < buyQuantity q + quantity x
            then (totalBuyCost q + price x * quantity x) / (buyQuantity q + quantity x) else 0)
      else avgBuyPrice q)"
  by (simp_all add: applyTrade_def Let_def)

lemma foldl_applyTrade_totals:
  "totalBuyCost (foldl applyTrade p xs) =
     totalBuyCost p + (\<Sum>b\<leftarrow>filter (\<lambda>t. type t = Buy) xs. price b * quantity b) \<and>
   buyQuantity (foldl applyTrade p xs) =
     buyQuantity p + (\<Sum>b\<leftarrow>filter (\<lambda>t. type t = Buy) xs. quantity b)"
proof (induction xs rule: rev_induct)
  case Nil
  then show ?case by simp
next
  case (snoc x xs)
  then show ?case
    by (simp add: applyTrade_buy_fields)
qed

lemma foldl_applyTrade_avg:
  "avgBuyPrice (foldl applyTrade p xs) =
     (if filter (\<lambda>t. type t = Buy) xs = [] then avgBuyPrice p
      else if 0 < buyQuantity (foldl applyTrade p xs)
           then totalBuyCost (foldl applyTrade p xs) / buyQuantity (foldl applyTrade p xs)
           else 0)"
proof (induction xs rule: rev_induct)
  case Nil
  then show ?case by simp
next
  case (snoc x xs)
  then show ?case
    by (simp add: applyTrade_buy_fields)
qed

lemma foldl_applyTrade_buys:
  "totalBuyCost (foldl applyTrade p xs) =
     totalBuyCost p + (\<Sum>b\<leftarrow>filter (\<lambda>t. type t = Buy) xs. price b * quantity b) \<and>
   buyQuantity (foldl applyTrade p xs) =
     buyQuantity p + (\<Sum>b\<leftarrow>filter (\<lambda>t. type t = Buy) xs. quantity b) \<and>
   avgBuyPrice (foldl applyTrade p xs) =
     (if filter (\<lambda>t. type t = Buy) xs = [] then avgBuyPrice p
      else if 0 < buyQuantity p + (\<Sum>b\<leftarrow>filter (\<lambda>t. type t = Buy) xs. quantity b)
           then (totalBuyCost p + (\<Sum>b\<leftarrow>filter (\<lambda>t. type t = Buy) xs. price b * quantity b)) /
                (buyQuantity p + (\<Sum>b\<leftarrow>filter (\<lambda>t. type t = Buy) xs. quantity b))
           else 0)"
  using foldl_applyTrade_totals [of p xs] foldl_applyTrade_avg [of p xs] by simp

lemma filter_buys_key:
  "filter (\<lambda>t. type t = Buy) (filter (\<lambda>t. stockKey t = k) ts) = buysOf k ts"
  unfolding buysOf_def filter_filter by (rule filter_cong) auto

lemma posAt_buys:
  "totalBuyCost (posAt pre t) = (\<Sum>b\<leftarrow>buysOf (stockKey t) pre. price b * quantity b) \<and>
   buyQuantity (posAt pre t) = (\<Sum>b\<leftarrow>buysOf (stockKey t) pre. quantity b) \<and>
   avgBuyPrice (posAt pre t) =
     (if buysOf (stockKey t) pre = [] then 0
      else if 0 < (\<Sum>b\<leftarrow>buysOf (stockKey t) pre. quantity b)
           then (\<Sum>b\<leftarrow>buysOf (stockKey t) pre. price b * quantity b) /
                (\<Sum>b\<leftarrow>buysOf (stockKey t) pre. quantity b)
           else 0)"
proof (cases "filter (\<lambda>u. stockKey u = stockKey t) pre")
  case Nil
  then have "buysOf (stockKey t) pre = []"
    using filter_buys_key [of "stockKey t" pre] by simp
  with Nil show ?thesis
    by (simp add: posAt_def map_of_foldl_posStep newPosition_def)
next
  case (Cons t0 rest)
  have "posAt pre t = foldl applyTrade (newPosition t0) (t0 # rest)"
    by (simp add: posAt_def map_of_foldl_posStep Cons keyFold_Some)
  moreover have "filter (\<lambda>t. type t = Buy) (t0 # rest) = buysOf (stockKey t) pre"
    using filter_buys_key [of "stockKey t" pre] by (simp only: Cons)
  ultimately show ?thesis
    using foldl_applyTrade_buys [of "newPosition t0" "t0 # rest"]
    by (simp add: newPosition_def)
qed
section \<open>Sells in the monthly statistics\<close>

lemma sum_list_pos_rat:
  "xs \<noteq> [] \<Longrightarrow> \<forall>x\<in>set xs. 0 < f x \<Longrightarrow> 0 < (\<Sum>x\<leftarrow>xs. (f x :: rat))"
proof (cases xs)
  case Nil
  then show "xs \<noteq> [] \<Longrightarrow> ?thesis" by simp
next
  case (Cons a as)
  assume p: "\<forall>x\<in>set xs. 0 < f x"
  then have "0 \<le> (\<Sum>x\<leftarrow>as. f x)"
    using Cons by (intro sum_list_nonneg) (auto simp: less_imp_le)
  moreover have "0 < f a" using p Cons by simp
  ultimately show ?thesis using Cons by simp
qed

lemma accTrade_sell:
  "type t \<noteq> Buy \<Longrightarrow>
     accTrade P e t =
       e\<lparr> sellAmount := sellAmount e + price t * quantity t,
          pnl := jadd (pnl e) (pnlContribution P t),
          countN := countN e + 1 \<rparr>"
  by (simp add: accTrade_def Let_def)

lemma applyTrade_sell_pnl:
  "type t \<noteq> Buy \<Longrightarrow>
     realizedPnL (applyTrade p t) = realizedPnL p + (price t * quantity t - avgBuyPrice p * quantity t)"
  by (simp add: applyTrade_def Let_def)

lemma map_of_posStep_same:
  "map_of (posStep (foldl posStep [] pre) t) (stockKey t) = Some (applyTrade (posAt pre t) t)"
  by (simp add: map_of_posStep posAt_def)

lemma map_of_monthStep_bucket:
  "map_of (monthStep P (foldl (monthStep P) [] pre) t) (monthOf t) =
     Some (accTrade P (bucketAt P pre t) t)"
  by (simp add: map_of_monthStep_same bucketAt_def)

text \<open>
  C10. A sell whose stock key has no buy anywhere in the collection adds \<open>0\<close> to the
  \<open>pnl\<close> of its month, the missing average price falling back to its own price: the
  bucket of the month gets the amount on \<open>sellAmount\<close> and one more on \<open>count\<close>, and
  its \<open>pnl\<close> stays. In \<open>calculatePositions\<close> the same sell adds its full revenue to
  \<open>realizedPnL\<close>.
\<close>

theorem sell_without_buys_monthly:
  assumes srt: "sortByDate ts = pre @ t # post"
    and sell: "type t \<noteq> Buy"
    and nobuy: "\<forall>b\<in>set ts. stockKey b = stockKey t \<longrightarrow> type b \<noteq> Buy"
  shows "pnlContribution (avgPositions (sortByDate ts)) t = Fin 0 \<and>
         map_of (monthStep (avgPositions (sortByDate ts))
                   (foldl (monthStep (avgPositions (sortByDate ts))) [] pre) t) (monthOf t) =
           Some ((bucketAt (avgPositions (sortByDate ts)) pre t)
                   \<lparr> sellAmount := sellAmount (bucketAt (avgPositions (sortByDate ts)) pre t)
                                     + price t * quantity t,
                      countN := countN (bucketAt (avgPositions (sortByDate ts)) pre t) + 1 \<rparr>) \<and>
         map_of (posStep (foldl posStep [] pre) t) (stockKey t) =
           Some (applyTrade (posAt pre t) t) \<and>
         realizedPnL (applyTrade (posAt pre t) t) =
           realizedPnL (posAt pre t) + price t * quantity t"
proof -
  have set_eq: "set (sortByDate ts) = set ts" by (simp add: sortByDate_def)
  have b1: "buysOf (stockKey t) (sortByDate ts) = []"
    unfolding buysOf_def filter_empty_conv set_eq using nobuy by blast
  have "set pre \<subseteq> set ts" using set_eq srt by auto
  then have b2: "buysOf (stockKey t) pre = []"
    unfolding buysOf_def filter_empty_conv using nobuy by blast
  have c: "pnlContribution (avgPositions (sortByDate ts)) t = Fin 0"
    by (rule pnlContribution_no_buys [OF b1])
  have a: "avgBuyPrice (posAt pre t) = 0"
    using posAt_buys [of pre t] b2 by simp
  show ?thesis
    by (simp add: c a map_of_monthStep_bucket accTrade_sell [OF sell] map_of_posStep_same
        applyTrade_sell_pnl [OF sell])
qed

theorem sell_without_buys_monthly_witness:
  "pnlContribution
     (avgPositions (sortByDate
        [mkTrade ''2024-04-01'' ''X'' Buy 1 2, mkTrade ''2024-04-02'' ''Y'' Sell 10 5]))
     (mkTrade ''2024-04-02'' ''Y'' Sell 10 5) = Fin 0 \<and>
   map pnl (getMonthlyStats
        [mkTrade ''2024-04-01'' ''X'' Buy 1 2, mkTrade ''2024-04-02'' ''Y'' Sell 10 5]) = [Fin 0] \<and>
   map sellAmount (getMonthlyStats
        [mkTrade ''2024-04-01'' ''X'' Buy 1 2, mkTrade ''2024-04-02'' ''Y'' Sell 10 5]) = [50] \<and>
   map countN (getMonthlyStats
        [mkTrade ''2024-04-01'' ''X'' Buy 1 2, mkTrade ''2024-04-02'' ''Y'' Sell 10 5]) = [2] \<and>
   realizedPnL (applyTrade (posAt [mkTrade ''2024-04-01'' ''X'' Buy 1 2]
        (mkTrade ''2024-04-02'' ''Y'' Sell 10 5)) (mkTrade ''2024-04-02'' ''Y'' Sell 10 5)) = 50"
  using sell_without_buys_monthly [of
      "[mkTrade ''2024-04-01'' ''X'' Buy 1 2, mkTrade ''2024-04-02'' ''Y'' Sell 10 5]"
      "[mkTrade ''2024-04-01'' ''X'' Buy 1 2]" "mkTrade ''2024-04-02'' ''Y'' Sell 10 5" "[]"]
  by (simp add: getMonthlyStats_def sortByDate_def avgPositions_def avgStep_def monthStep_def
      accTrade_def pnlContribution_def avgPriceOf_def emptyAcc_def monthOf_def toStat_def
      sliceLast_def jsdiv_def stockKey_def mkTrade_def Let_def posAt_def posStep_def
      applyTrade_def newPosition_def calculatePositions_def monthEntry_def bucketAt_def)

text \<open>
  C1, as stated, fails on two inputs. A buy of 100 at 10, a sell of 50 at 15 a month
  later and a buy of 100 at 20 after that: \<open>calculatePositions\<close> holds the average 10 at
  the sell, which makes its contribution 250, and the month gets 0, since the price read
  from \<^verbatim>\<open>positions\<close> is the average 15 over all buys. A single sell of 10 at 5 with no
  buy: the average held is 0, which makes 50, and the month gets 0.
\<close>

theorem monthly_pnl_counterexample:
  "sortByDate
     [mkTrade ''2024-01-01'' ''X'' Buy 100 10, mkTrade ''2024-02-01'' ''X'' Sell 50 15,
      mkTrade ''2024-03-01'' ''X'' Buy 100 20] =
     [mkTrade ''2024-01-01'' ''X'' Buy 100 10] @ mkTrade ''2024-02-01'' ''X'' Sell 50 15 #
     [mkTrade ''2024-03-01'' ''X'' Buy 100 20] \<and>
   (price (mkTrade ''2024-02-01'' ''X'' Sell 50 15) -
      avgBuyPrice (posAt [mkTrade ''2024-01-01'' ''X'' Buy 100 10]
        (mkTrade ''2024-02-01'' ''X'' Sell 50 15))) *
      quantity (mkTrade ''2024-02-01'' ''X'' Sell 50 15) = 250 \<and>
   pnlContribution
     (avgPositions (sortByDate
       [mkTrade ''2024-01-01'' ''X'' Buy 100 10, mkTrade ''2024-02-01'' ''X'' Sell 50 15,
        mkTrade ''2024-03-01'' ''X'' Buy 100 20]))
     (mkTrade ''2024-02-01'' ''X'' Sell 50 15) = Fin 0 \<and>
   map pnl (getMonthlyStats
       [mkTrade ''2024-01-01'' ''X'' Buy 100 10, mkTrade ''2024-02-01'' ''X'' Sell 50 15,
        mkTrade ''2024-03-01'' ''X'' Buy 100 20]) = [Fin 0, Fin 0, Fin 0] \<and>
   map realizedPnL (calculatePositions
       [mkTrade ''2024-01-01'' ''X'' Buy 100 10, mkTrade ''2024-02-01'' ''X'' Sell 50 15,
        mkTrade ''2024-03-01'' ''X'' Buy 100 20]) = [250] \<and>
   (price (mkTrade ''2024-04-01'' ''Y'' Sell 10 5) -
      avgBuyPrice (posAt [] (mkTrade ''2024-04-01'' ''Y'' Sell 10 5))) *
      quantity (mkTrade ''2024-04-01'' ''Y'' Sell 10 5) = 50 \<and>
   pnlContribution (avgPositions (sortByDate [mkTrade ''2024-04-01'' ''Y'' Sell 10 5]))
     (mkTrade ''2024-04-01'' ''Y'' Sell 10 5) = Fin 0 \<and>
   map pnl (getMonthlyStats [mkTrade ''2024-04-01'' ''Y'' Sell 10 5]) = [Fin 0]"
  by (simp add: getMonthlyStats_def sortByDate_def avgPositions_def avgStep_def monthStep_def
      accTrade_def pnlContribution_def avgPriceOf_def emptyAcc_def monthOf_def toStat_def
      sliceLast_def jsdiv_def stockKey_def mkTrade_def Let_def posAt_def posStep_def
      applyTrade_def newPosition_def calculatePositions_def)

text \<open>
  C1, amended. Let the buys of a stock have positive quantity and price, and take a sell
  of the stock with no buy of the stock after it in the date-sorted history. If the stock
  has a buy before the sell, the sell adds \<open>(price - avgBuyPrice) * quantity\<close> to the
  \<open>pnl\<close> of its month, where \<open>avgBuyPrice\<close> is the one \<open>calculatePositions\<close> holds for
  the stock when it processes that sell; if the stock has no buy, the sell adds \<open>0\<close>.
\<close>

theorem monthly_pnl_at_last_buy:
  assumes srt: "sortByDate ts = pre @ t # post"
    and sell: "type t \<noteq> Buy"
    and after: "\<forall>b\<in>set post. stockKey b = stockKey t \<longrightarrow> type b \<noteq> Buy"
    and wf: "\<forall>b\<in>set ts. type b = Buy \<and> stockKey b = stockKey t \<longrightarrow> 0 < quantity b \<and> 0 < price b"
  shows "pnlContribution (avgPositions (sortByDate ts)) t =
           (if buysOf (stockKey t) pre = [] then Fin 0
            else Fin ((price t - avgBuyPrice (posAt pre t)) * quantity t)) \<and>
         map_of (monthStep (avgPositions (sortByDate ts))
                   (foldl (monthStep (avgPositions (sortByDate ts))) [] pre) t) (monthOf t) =
           Some ((bucketAt (avgPositions (sortByDate ts)) pre t)
                   \<lparr> sellAmount := sellAmount (bucketAt (avgPositions (sortByDate ts)) pre t)
                                     + price t * quantity t,
                      pnl := jadd (pnl (bucketAt (avgPositions (sortByDate ts)) pre t))
                               (if buysOf (stockKey t) pre = [] then Fin 0
                                else Fin ((price t - avgBuyPrice (posAt pre t)) * quantity t)),
                      countN := countN (bucketAt (avgPositions (sortByDate ts)) pre t) + 1 \<rparr>)"
proof -
  let ?k = "stockKey t"
  let ?bs = "buysOf ?k pre"
  let ?C = "\<Sum>b\<leftarrow>?bs. price b * quantity b"
  let ?Q = "\<Sum>b\<leftarrow>?bs. quantity b"
  have set_eq: "set (sortByDate ts) = set ts" by (simp add: sortByDate_def)
  have "buysOf ?k post = []"
    unfolding buysOf_def filter_empty_conv using after by blast
  then have all: "buysOf ?k (sortByDate ts) = ?bs"
    using sell by (simp add: srt buysOf_def)
  have c: "pnlContribution (avgPositions (sortByDate ts)) t =
           (if ?bs = [] then Fin 0
            else Fin ((price t - avgBuyPrice (posAt pre t)) * quantity t))"
  proof (cases "?bs = []")
    case True
    then show ?thesis using pnlContribution_no_buys [of t "sortByDate ts"] all by simp
  next
    case ne: False
    have "set ?bs \<subseteq> set ts" using set_eq srt by (auto simp: buysOf_def)
    then have pos: "\<forall>b\<in>set ?bs. 0 < quantity b \<and> 0 < price b"
      using wf by (auto simp: buysOf_def)
    have Q: "0 < ?Q" by (rule sum_list_pos_rat [OF ne]) (use pos in blast)
    have C: "0 < ?C" by (rule sum_list_pos_rat [OF ne]) (use pos in simp)
    have avg: "avgBuyPrice (posAt pre t) = ?C / ?Q"
      using posAt_buys [of pre t] ne Q by simp
    have "avgPositions (sortByDate ts) ?k = Some (Fin (?C / ?Q))"
      using ne Q by (simp add: avgPositions_key all jsdiv_def)
    moreover have "?C / ?Q \<noteq> 0" using C Q by simp
    ultimately have "avgPriceOf (avgPositions (sortByDate ts)) t = Fin (?C / ?Q)"
      by (simp add: avgPriceOf_def)
    then show ?thesis
      using ne by (simp add: pnlContribution_def avg)
  qed
  show ?thesis
    unfolding c [symmetric] by (simp add: map_of_monthStep_bucket accTrade_sell [OF sell])
qed

theorem monthly_pnl_at_last_buy_witness:
  "pnlContribution
     (avgPositions (sortByDate
        [mkTrade ''2024-01-10'' ''X'' Buy 100 10, mkTrade ''2024-02-03'' ''X'' Buy 50 12,
         mkTrade ''2024-03-20'' ''X'' Sell 80 15]))
     (mkTrade ''2024-03-20'' ''X'' Sell 80 15) = Fin (1040 / 3) \<and>
   avgBuyPrice (posAt [mkTrade ''2024-01-10'' ''X'' Buy 100 10, mkTrade ''2024-02-03'' ''X'' Buy 50 12]
        (mkTrade ''2024-03-20'' ''X'' Sell 80 15)) = 32 / 3 \<and>
   pnlContribution (avgPositions (sortByDate [mkTrade ''2024-04-01'' ''Y'' Sell 10 5]))
     (mkTrade ''2024-04-01'' ''Y'' Sell 10 5) = Fin 0"
proof -
  have a: "avgBuyPrice (posAt [mkTrade ''2024-01-10'' ''X'' Buy 100 10, mkTrade ''2024-02-03'' ''X'' Buy 50 12]
        (mkTrade ''2024-03-20'' ''X'' Sell 80 15)) = 32 / 3"
    by (simp add: posAt_def posStep_def applyTrade_def newPosition_def stockKey_def mkTrade_def Let_def)
  have s: "sortByDate [mkTrade ''2024-01-10'' ''X'' Buy 100 10, mkTrade ''2024-02-03'' ''X'' Buy 50 12,
         mkTrade ''2024-03-20'' ''X'' Sell 80 15] =
      [mkTrade ''2024-01-10'' ''X'' Buy 100 10, mkTrade ''2024-02-03'' ''X'' Buy 50 12] @
         mkTrade ''2024-03-20'' ''X'' Sell 80 15 # []"
    by (simp add: sortByDate_def mkTrade_def)
  have s2: "sortByDate [mkTrade ''2024-04-01'' ''Y'' Sell 10 5] =
      [] @ mkTrade ''2024-04-01'' ''Y'' Sell 10 5 # []"
    by (simp add: sortByDate_def)
  have "pnlContribution
     (avgPositions (sortByDate
        [mkTrade ''2024-01-10'' ''X'' Buy 100 10, mkTrade ''2024-02-03'' ''X'' Buy 50 12,
         mkTrade ''2024-03-20'' ''X'' Sell 80 15]))
     (mkTrade ''2024-03-20'' ''X'' Sell 80 15) =
     Fin ((price (mkTrade ''2024-03-20'' ''X'' Sell 80 15) -
        avgBuyPrice (posAt [mkTrade ''2024-01-10'' ''X'' Buy 100 10, mkTrade ''2024-02-03'' ''X'' Buy 50 12]
        (mkTrade ''2024-03-20'' ''X'' Sell 80 15))) * quantity (mkTrade ''2024-03-20'' ''X'' Sell 80 15))"
    using monthly_pnl_at_last_buy [OF s] by (auto simp: mkTrade_def stockKey_def buysOf_def)
  moreover have "pnlContribution (avgPositions (sortByDate [mkTrade ''2024-04-01'' ''Y'' Sell 10 5]))
     (mkTrade ''2024-04-01'' ''Y'' Sell 10 5) = Fin 0"
    using monthly_pnl_at_last_buy [OF s2] by (auto simp: mkTrade_def stockKey_def buysOf_def)
  ultimately show ?thesis unfolding a by (simp add: a mkTrade_def)
qed

section \<open>The months returned\<close>

lemma keys_mapSet:
  "map fst (mapSet k v al) = (if k \<in> set (map fst al) then map fst al else map fst al @ [k])"
  by (induction al) auto

lemma keys_monthStep:
  "map fst (monthStep P mm t) =
     (if monthOf t \<in> set (map fst mm) then map fst mm else map fst mm @ [monthOf t])"
  by (simp add: monthStep_def Let_def keys_mapSet)

lemma keys_foldl_monthStep:
  "distinct (map fst mm) \<Longrightarrow>
     distinct (map fst (foldl (monthStep P) mm ts)) \<and>
     set (map fst (foldl (monthStep P) mm ts)) = set (map fst mm) \<union> monthOf ` set ts"
proof (induction ts arbitrary: mm)
  case Nil
  then show ?case by simp
next
  case (Cons t ts)
  have d: "distinct (map fst (monthStep P mm t))"
    using Cons.prems by (simp add: keys_monthStep)
  have s: "set (map fst (monthStep P mm t)) = insert (monthOf t) (set (map fst mm))"
    by (auto simp: keys_monthStep)
  show ?case
    using Cons.IH [OF d] s by auto
qed

lemma map_of_monthStep:
  "map_of (monthStep P mm t) m =
     (if monthOf t = m
      then Some (accTrade P (case map_of mm m of Some e \<Rightarrow> e | None \<Rightarrow> emptyAcc) t)
      else map_of mm m)"
  by (auto simp: monthStep_def Let_def map_of_mapSet)

lemma map_of_foldl_monthStep:
  "map_of (foldl (monthStep P) mm ts) m =
     (if filter (\<lambda>t. monthOf t = m) ts = [] then map_of mm m
      else Some (foldl (accTrade P) (case map_of mm m of Some e \<Rightarrow> e | None \<Rightarrow> emptyAcc)
                   (filter (\<lambda>t. monthOf t = m) ts)))"
proof (induction ts arbitrary: mm)
  case Nil
  then show ?case by simp
next
  case (Cons t ts)
  show ?case
    by (simp add: Cons.IH map_of_monthStep)
qed

lemma alist_by_keys:
  "distinct (map fst al) \<Longrightarrow> al = map (\<lambda>k. (k, the (map_of al k))) (map fst al)"
proof (induction al)
  case Nil
  then show ?case by simp
next
  case (Cons e al)
  obtain k0 v0 where e: "e = (k0, v0)" by (cases e)
  have "map (\<lambda>k. (k, the (map_of (e # al) k))) (map fst al) =
        map (\<lambda>k. (k, the (map_of al k))) (map fst al)"
  proof (rule map_cong [OF refl])
    fix k assume "k \<in> set (map fst al)"
    then have "k \<noteq> k0" using Cons.prems e by auto
    then show "(k, the (map_of (e # al) k)) = (k, the (map_of al k))" by (simp add: e)
  qed
  with Cons show ?case by (simp add: e)
qed

lemma insort_key_map_gen:
  "insort_key f (g x) (map g ys) = map g (insort_key (\<lambda>y. f (g y)) x ys)"
  by (induction ys) simp_all

lemma sort_key_map_gen: "sort_key f (map g xs) = map g (sort_key (\<lambda>y. f (g y)) xs)"
  by (induction xs) (simp_all add: insort_key_map_gen)

lemma sliceLast_map: "sliceLast n (map g xs) = map g (sliceLast n xs)"
  by (simp add: sliceLast_def drop_map)

lemma month_toStat [simp]: "month (toStat e) = fst e"
  by (simp add: toStat_def)

lemma getMonthlyStats_entries:
  "getMonthlyStats ts = map (monthEntry ts) (sliceLast 12 (sort (remdups (map monthOf ts))))"
proof -
  let ?S = "sortByDate ts"
  let ?P = "avgPositions ?S"
  let ?al = "foldl (monthStep ?P) [] ?S"
  let ?ks = "map fst ?al"
  have k: "distinct ?ks \<and> set ?ks = monthOf ` set ts"
    using keys_foldl_monthStep [of "[]" ?P ?S] by (simp add: sortByDate_def)
  have "?al = map (\<lambda>k. (k, the (map_of ?al k))) ?ks"
    using k by (intro alist_by_keys) simp
  then have "map toStat ?al = map toStat (map (\<lambda>k. (k, the (map_of ?al k))) ?ks)"
    by simp
  also have "\<dots> = map (\<lambda>k. toStat (k, the (map_of ?al k))) ?ks"
    by simp
  also have "\<dots> = map (monthEntry ts) ?ks"
  proof (rule map_cong [OF refl])
    fix m assume "m \<in> set ?ks"
    then have "m \<in> monthOf ` set ?S" using k by (simp add: sortByDate_def)
    then have "filter (\<lambda>t. monthOf t = m) ?S \<noteq> []"
      by (auto simp: filter_empty_conv)
    then show "toStat (m, the (map_of ?al m)) = monthEntry ts m"
      by (simp add: map_of_foldl_monthStep monthEntry_def)
  qed
  finally have e: "map toStat ?al = map (monthEntry ts) ?ks" .
  have "sort_key month (map (monthEntry ts) ?ks) = map (monthEntry ts) (sort ?ks)"
    by (simp add: sort_key_map_gen monthEntry_def)
  moreover have "sort ?ks = sort (remdups (map monthOf ts))"
    by (rule sorted_distinct_set_unique) (use k in simp_all)
  ultimately show ?thesis
    by (simp add: getMonthlyStats_def Let_def e sliceLast_map)
qed

lemma month_monthEntry [simp]: "month (monthEntry ts m) = m"
  by (simp add: monthEntry_def)

lemma map_month_getMonthlyStats:
  "map month (getMonthlyStats ts) = sliceLast 12 (sort (remdups (map monthOf ts)))"
  by (simp add: getMonthlyStats_entries o_def)

lemma length_sliceLast: "length (sliceLast n xs) = min n (length xs)"
  by (simp add: sliceLast_def)

lemma sliceLast_older:
  assumes "sorted xs" "distinct xs" "a \<in> set xs" "a \<notin> set (sliceLast n xs)" "b \<in> set (sliceLast n xs)"
  shows "a < b"
proof -
  let ?d = "length xs - n"
  have xs: "xs = take ?d xs @ drop ?d xs" by simp
  have "a \<in> set (take ?d xs)"
    using assms(3,4) xs by (metis Un_iff set_append sliceLast_def)
  moreover have "b \<in> set (drop ?d xs)" using assms(5) by (simp add: sliceLast_def)
  moreover have "sorted (take ?d xs @ drop ?d xs)" using assms(1) by simp
  ultimately have "a \<le> b" unfolding sorted_append by blast
  moreover have "a \<noteq> b" using assms(4,5) by auto
  ultimately show ?thesis by simp
qed

text \<open>
  C5. \<open>getMonthlyStats\<close> returns the entries of the last twelve of the distinct months
  present, in ascending order of the month key: at most twelve, exactly twelve when
  there are that many months, each month once, and every month left out is older than
  every month returned. Each entry is folded over the trades of its month with the
  average prices built from the whole history, the months left out included.
\<close>

theorem monthly_stats_last_twelve:
  "getMonthlyStats ts = map (monthEntry ts) (sliceLast 12 (sort (remdups (map monthOf ts)))) \<and>
   length (getMonthlyStats ts) = min 12 (length (remdups (map monthOf ts))) \<and>
   sorted (map month (getMonthlyStats ts)) \<and>
   distinct (map month (getMonthlyStats ts)) \<and>
   (\<forall>t\<in>set ts. monthOf t \<notin> set (map month (getMonthlyStats ts)) \<longrightarrow>
      (\<forall>e\<in>set (getMonthlyStats ts). monthOf t < month e))"
proof -
  let ?ms = "sort (remdups (map monthOf ts))"
  have m: "map month (getMonthlyStats ts) = sliceLast 12 ?ms"
    by (rule map_month_getMonthlyStats)
  have "length (map month (getMonthlyStats ts)) = min 12 (length (remdups (map monthOf ts)))"
    unfolding m by (simp add: length_sliceLast)
  then have l: "length (getMonthlyStats ts) = min 12 (length (remdups (map monthOf ts)))"
    by simp
  have s: "sorted (map month (getMonthlyStats ts))"
    unfolding m sliceLast_def by (rule sorted_wrt_drop) simp
  have d: "distinct (map month (getMonthlyStats ts))"
    unfolding m sliceLast_def by (rule distinct_drop) simp
  have o: "\<forall>t\<in>set ts. monthOf t \<notin> set (map month (getMonthlyStats ts)) \<longrightarrow>
      (\<forall>e\<in>set (getMonthlyStats ts). monthOf t < month e)"
  proof (intro ballI impI)
    fix t e
    assume t: "t \<in> set ts" and n: "monthOf t \<notin> set (map month (getMonthlyStats ts))"
      and e: "e \<in> set (getMonthlyStats ts)"
    have "month e \<in> set (sliceLast 12 ?ms)" using e m by (metis image_eqI set_map)
    moreover have "monthOf t \<notin> set (sliceLast 12 ?ms)" using n m by simp
    moreover have "monthOf t \<in> set ?ms" using t by simp
    ultimately show "monthOf t < month e"
      by (intro sliceLast_older [of ?ms _ 12]) simp_all
  qed
  show ?thesis
    using getMonthlyStats_entries [of ts] l s d o by blast
qed

theorem monthly_stats_last_twelve_witness:
  "map month (getMonthlyStats fifteenMonths) =
     [''2023-04'', ''2023-05'', ''2023-06'', ''2023-07'', ''2023-08'', ''2023-09'',
      ''2023-10'', ''2023-11'', ''2023-12'', ''2024-01'', ''2024-02'', ''2024-03''] \<and>
   length (getMonthlyStats fifteenMonths) = 12 \<and>
   pnl (last (getMonthlyStats fifteenMonths)) = Fin 500 \<and>
   ''2023-01'' < month (hd (getMonthlyStats fifteenMonths))"
proof -
  have s: "sliceLast 12 (sort (remdups (map monthOf fifteenMonths))) =
     [''2023-04'', ''2023-05'', ''2023-06'', ''2023-07'', ''2023-08'', ''2023-09'',
      ''2023-10'', ''2023-11'', ''2023-12'', ''2024-01'', ''2024-02'', ''2024-03'']"
    by (simp add: fifteenMonths_def mkTrade_def monthOf_def sliceLast_def)
  have e: "pnl (monthEntry fifteenMonths ''2024-03'') = Fin 500"
    by (simp add: fifteenMonths_def getMonthlyStats_def sortByDate_def avgPositions_def avgStep_def monthStep_def
      accTrade_def pnlContribution_def avgPriceOf_def emptyAcc_def monthOf_def toStat_def
      sliceLast_def jsdiv_def stockKey_def mkTrade_def Let_def posAt_def posStep_def
      applyTrade_def newPosition_def calculatePositions_def monthEntry_def bucketAt_def)
  have "getMonthlyStats fifteenMonths =
      map (monthEntry fifteenMonths) (sliceLast 12 (sort (remdups (map monthOf fifteenMonths))))"
    using monthly_stats_last_twelve [of fifteenMonths] by blast
  then show ?thesis
    unfolding s using e by simp
qed

section \<open>Records that are not buys, in a run\<close>










end
